theory Spec2Isabelle
  imports Main "HOL-Library.Word"
begin

unbundle bit_operations_syntax

section \<open>Values and errors\<close>

text \<open>
  The patient data handled by \<^verbatim>\<open>recordlinker/models/mpi.py\<close> is what \<^verbatim>\<open>json.loads\<close>
  returns: \<^verbatim>\<open>None\<close>, booleans, numbers, strings, lists and dicts with string keys.
  The code never looks inside a number, so the representation of numbers is the type
  parameter \<open>'n\<close>. A dict is the list of its items in insertion order, which is the order
  in which Python iterates over it; keys are distinct in every dict the code receives.
  A character of a model string stands for one code point of the Python string, so
  \<open>length\<close> is Python's \<^verbatim>\<open>len\<close>.
\<close>

datatype 'n json =
    JNull
  | JBool bool
  | JNum 'n
  | JStr string
  | JList "'n json list"
  | JDict "(string \<times> 'n json) list"

text \<open>Every \<^verbatim>\<open>raise\<close> and failed call of the source is a value of this type.\<close>

datatype error =
    RuntimeError
  | TypeError
  | ValueError
  | ValidationError
  | FileNotFoundError
  | JSONDecodeError
  | InvalidConfig

section \<open>Patient: scrubbing and the record property\<close>

text \<open>
  \<^verbatim>\<open>
  def is_empty(value):
      return value is None or value == [] or value == {}
  \<close>
\<close>

definition is_empty :: "'n json \<Rightarrow> bool" where
  "is_empty v \<longleftrightarrow> v = JNull \<or> v = JList [] \<or> v = JDict []"

text \<open>
  \<^verbatim>\<open>
  if isinstance(data, dict):
      return {k: cls._scrub_empty(v) for k, v in data.items() if not is_empty(v)}
  elif isinstance(data, list):
      return [cls._scrub_empty(v) for v in data if not is_empty(v)]
  return data
  \<close>
  The test \<^verbatim>\<open>is_empty\<close> is applied to the value as it is before the recursive call.
\<close>

fun scrub_empty :: "'n json \<Rightarrow> 'n json" where
  "scrub_empty (JDict kvs) = JDict [(k, scrub_empty v). (k, v) \<leftarrow> kvs, \<not> is_empty v]"
| "scrub_empty (JList vs) = JList [scrub_empty v. v \<leftarrow> vs, \<not> is_empty v]"
| "scrub_empty data = data"

text \<open>
  A value holds no empty leaf when no item of a dict and no element of a list in it, at
  any depth, is \<^verbatim>\<open>None\<close>, an empty list or an empty dict.
\<close>

fun no_empty_leaves :: "'n json \<Rightarrow> bool" where
  "no_empty_leaves (JDict kvs) = list_all (\<lambda>(k, v). \<not> is_empty v \<and> no_empty_leaves v) kvs"
| "no_empty_leaves (JList vs) = list_all (\<lambda>v. \<not> is_empty v \<and> no_empty_leaves v) vs"
| "no_empty_leaves _ = True"

text \<open>
  The columns of \<^verbatim>\<open>mpi_patient\<close>. The primary key \<^verbatim>\<open>id\<close> is called \<open>id_col\<close> here,
  and a column that holds \<^verbatim>\<open>None\<close> (or is not set) holds \<open>JNull\<close> or \<open>None\<close>.
\<close>

record 'n patient =
  id_col :: int
  person_id :: int
  data :: "'n json"
  external_patient_id :: "string option"
  external_person_id :: "string option"
  external_person_source :: "string option"

text \<open>Python's truth value of a JSON value, as \<^verbatim>\<open>if self.data:\<close> tests it.\<close>

fun truthy :: "('n::zero) json \<Rightarrow> bool" where
  "truthy JNull = False"
| "truthy (JBool b) = b"
| "truthy (JNum n) = (n \<noteq> 0)"
| "truthy (JStr s) = (s \<noteq> [])"
| "truthy (JList vs) = (vs \<noteq> [])"
| "truthy (JDict kvs) = (kvs \<noteq> [])"

text \<open>
  \<^verbatim>\<open>
  @property
  def record(self) -> PIIRecord | None:
      if self.data:
          return PIIRecord(**self.data)
  \<close>
  The class \<^verbatim>\<open>PIIRecord\<close> lives in \<^verbatim>\<open>recordlinker/models/pii.py\<close>; its constructor is the
  parameter \<open>PIIRecord\<close>, which takes the keyword arguments and returns the record or the
  error it raises. Unpacking \<^verbatim>\<open>**\<close> of a value that is not a dict raises \<^verbatim>\<open>TypeError\<close>.
  A call that falls off the end of the body returns \<^verbatim>\<open>None\<close>.
\<close>

definition record_get ::
  "((string \<times> 'n json) list \<Rightarrow> error + 'r) \<Rightarrow> ('n::zero) patient \<Rightarrow> error + 'r option" where
  "record_get PIIRecord self =
     (if truthy (data self) then
        (case data self of
           JDict kwargs \<Rightarrow> (case PIIRecord kwargs of Inl e \<Rightarrow> Inl e | Inr r \<Rightarrow> Inr (Some r))
         | _ \<Rightarrow> Inl TypeError)
      else Inr None)"

text \<open>
  \<^verbatim>\<open>
  @record.setter
  def record(self, value: PIIRecord):
      assert isinstance(value, PIIRecord), "Expected a PIIRecord object"
      data = json.loads(value.model_dump_json())
      self.data = self._scrub_empty(data)
  \<close>
  The assertion is the type of \<open>value\<close>. The parameter \<open>model_dump\<close> is
  \<^verbatim>\<open>json.loads(value.model_dump_json())\<close>, the JSON form of a \<^verbatim>\<open>PIIRecord\<close>.
\<close>

definition record_set :: "('r \<Rightarrow> 'n json) \<Rightarrow> 'n patient \<Rightarrow> 'r \<Rightarrow> 'n patient" where
  "record_set model_dump self val = self\<lparr>data := scrub_empty (model_dump val)\<rparr>"

section \<open>BlockingKey\<close>

datatype blocking_key = BIRTHDATE | MRN | SEX | ZIP | FIRST_NAME | LAST_NAME

text \<open>The two values of each member of the enum: its wire id and its description.\<close>

fun blocking_key_id :: "blocking_key \<Rightarrow> int" where
  "blocking_key_id BIRTHDATE = 1"
| "blocking_key_id MRN = 2"
| "blocking_key_id SEX = 3"
| "blocking_key_id ZIP = 4"
| "blocking_key_id FIRST_NAME = 5"
| "blocking_key_id LAST_NAME = 6"

fun description :: "blocking_key \<Rightarrow> string" where
  "description BIRTHDATE = ''Date of Birth''"
| "description MRN = ''Last 4 chars of MRN''"
| "description SEX = ''Sex''"
| "description ZIP = ''Zip Code''"
| "description FIRST_NAME = ''First 4 chars of First Name''"
| "description LAST_NAME = ''First 4 chars of Last Name''"

definition BLOCKING_VALUE_MAX_LENGTH :: nat where
  "BLOCKING_VALUE_MAX_LENGTH = 20"

text \<open>
  \<^verbatim>\<open>to_value(self, record)\<close> uses its argument only through \<^verbatim>\<open>record.field_iter(name)\<close>,
  a method of \<^verbatim>\<open>recordlinker/models/pii.py\<close>. The record is therefore represented by that
  method: \<open>field_iter name\<close> is the list of the strings the iterator yields, in order, or
  the error it raises. The Python slices \<^verbatim>\<open>x[-4:]\<close> and \<^verbatim>\<open>x[:4]\<close> return the whole string
  when it has fewer than four characters, as \<open>drop (length x - 4) x\<close> and \<open>take 4 x\<close> do.

  \<open>key_vals\<close> is the chain of \<^verbatim>\<open>if\<close>/\<^verbatim>\<open>elif\<close> that fills the set \<^verbatim>\<open>vals\<close>.
\<close>

fun key_vals :: "blocking_key \<Rightarrow> (string \<Rightarrow> error + string list) \<Rightarrow> error + string set" where
  "key_vals BIRTHDATE field_iter =
     (case field_iter ''birthdate'' of Inl e \<Rightarrow> Inl e | Inr xs \<Rightarrow> Inr (set xs))"
| "key_vals MRN field_iter =
     (case field_iter ''mrn'' of Inl e \<Rightarrow> Inl e
      | Inr xs \<Rightarrow> Inr (set [drop (length x - 4) x. x \<leftarrow> xs]))"
| "key_vals SEX field_iter =
     (case field_iter ''sex'' of Inl e \<Rightarrow> Inl e | Inr xs \<Rightarrow> Inr (set xs))"
| "key_vals ZIP field_iter =
     (case field_iter ''zip'' of Inl e \<Rightarrow> Inl e | Inr xs \<Rightarrow> Inr (set xs))"
| "key_vals FIRST_NAME field_iter =
     (case field_iter ''first_name'' of Inl e \<Rightarrow> Inl e
      | Inr xs \<Rightarrow> Inr (set [take 4 x. x \<leftarrow> xs]))"
| "key_vals LAST_NAME field_iter =
     (case field_iter ''last_name'' of Inl e \<Rightarrow> Inl e
      | Inr xs \<Rightarrow> Inr (set [take 4 x. x \<leftarrow> xs]))"

text \<open>
  \<^verbatim>\<open>
  if any(len(x) > BLOCKING_VALUE_MAX_LENGTH for x in vals):
      raise RuntimeError(...)
  return vals
  \<close>
\<close>

definition to_value :: "blocking_key \<Rightarrow> (string \<Rightarrow> error + string list) \<Rightarrow> error + string set" where
  "to_value self field_iter =
     (case key_vals self field_iter of
        Inl e \<Rightarrow> Inl e
      | Inr vals \<Rightarrow>
          if (\<exists>x\<in>vals. length x > BLOCKING_VALUE_MAX_LENGTH) then Inl RuntimeError
          else Inr vals)"

text \<open>
  The whitespace characters of Python's \<^verbatim>\<open>str.isspace\<close> among the code points below 256,
  and the strings that are empty or made of whitespace only.
\<close>

definition isspace :: "char \<Rightarrow> bool" where
  "isspace c \<longleftrightarrow> (of_char c :: nat) \<in> set [9, 10, 11, 12, 13, 28, 29, 30, 31, 32, 133, 160]"

definition blank :: "string \<Rightarrow> bool" where
  "blank s \<longleftrightarrow> list_all isspace s"

text \<open>
  The field that \<^verbatim>\<open>to_value\<close> asks \<^verbatim>\<open>field_iter\<close> for under each key, and what the branch
  of that key makes of one yielded value.
\<close>

fun field_of :: "blocking_key \<Rightarrow> string" where
  "field_of BIRTHDATE = ''birthdate''"
| "field_of MRN = ''mrn''"
| "field_of SEX = ''sex''"
| "field_of ZIP = ''zip''"
| "field_of FIRST_NAME = ''first_name''"
| "field_of LAST_NAME = ''last_name''"

fun derivation :: "blocking_key \<Rightarrow> string \<Rightarrow> string" where
  "derivation BIRTHDATE x = x"
| "derivation MRN x = drop (length x - 4) x"
| "derivation SEX x = x"
| "derivation ZIP x = x"
| "derivation FIRST_NAME x = take 4 x"
| "derivation LAST_NAME x = take 4 x"

section \<open>The algorithm configuration on disk\<close>

text \<open>
  \<^verbatim>\<open>read_linkage_config\<close> and \<^verbatim>\<open>write_linkage_config\<close> are functions of
  \<^verbatim>\<open>recordlinker/linkage/link.py\<close>, a module known here through its tests
  (\<^verbatim>\<open>test_read_algo_errors\<close>, \<^verbatim>\<open>test_algo_write\<close>) only. The definitions of this
  section follow the specification. The files are a map from paths to their text. The
  encoder and the decoder of JSON text are the parameters \<open>dumps\<close> and \<open>loads\<close>, for
  which the next section gives \<open>json_dumps\<close> and \<open>json_loads\<close>; \<open>loads\<close> returns \<open>None\<close> on
  a text that is not JSON.
\<close>

type_synonym filesystem = "string \<rightharpoonup> string"

text \<open>
  Modelled from the spec: the algorithm description held in memory (an argument of the
  missing \<^verbatim>\<open>write_linkage_config\<close>). It is a JSON value in which a matcher or a rule may
  also be a reference to a function, \<open>CFunc\<close> of the dotted path of the function.
\<close>

datatype 'n config =
    CFunc string
  | CNull
  | CBool bool
  | CNum 'n
  | CStr string
  | CList "'n config list"
  | CDict "(string \<times> 'n config) list"

text \<open>
  Modelled from the spec: the form in which the missing \<^verbatim>\<open>write_linkage_config\<close> emits a
  description, with every function reference as the string \<^verbatim>\<open>func:<dotted.path>\<close>.
\<close>

fun func_to_str :: "'n config \<Rightarrow> 'n json" where
  "func_to_str (CFunc path) = JStr (''func:'' @ path)"
| "func_to_str CNull = JNull"
| "func_to_str (CBool b) = JBool b"
| "func_to_str (CNum n) = JNum n"
| "func_to_str (CStr s) = JStr s"
| "func_to_str (CList vs) = JList (map func_to_str vs)"
| "func_to_str (CDict kvs) = JDict (map (\<lambda>(k, v). (k, func_to_str v)) kvs)"

text \<open>A description that holds its identifiers as strings already: a JSON value as it is.\<close>

fun held_as_strings :: "'n json \<Rightarrow> 'n config" where
  "held_as_strings JNull = CNull"
| "held_as_strings (JBool b) = CBool b"
| "held_as_strings (JNum n) = CNum n"
| "held_as_strings (JStr s) = CStr s"
| "held_as_strings (JList vs) = CList (map held_as_strings vs)"
| "held_as_strings (JDict kvs) = CDict (map (\<lambda>(k, v). (k, held_as_strings v)) kvs)"

text \<open>
  Modelled from the spec: \<^verbatim>\<open>write_linkage_config(linkage_algo, file_to_write)\<close>, missing
  from the sources. It writes the JSON text of the description, identifiers in string
  form, to the file.
\<close>

definition write_linkage_config ::
  "('n json \<Rightarrow> string) \<Rightarrow> 'n config \<Rightarrow> string \<Rightarrow> filesystem \<Rightarrow> filesystem" where
  "write_linkage_config dumps linkage_algo file_to_write fs =
     fs(file_to_write \<mapsto> dumps (func_to_str linkage_algo))"

text \<open>
  Modelled from the spec: \<^verbatim>\<open>read_linkage_config(config_file)\<close>, missing from the sources.
  A missing file is \<^verbatim>\<open>FileNotFoundError\<close>, a text that is not JSON is
  \<^verbatim>\<open>JSONDecodeError\<close>, and a description that names a matcher or a rule that is not
  registered is \<^verbatim>\<open>InvalidConfig\<close>; \<open>registered\<close> is that check of the registry.
\<close>

definition read_linkage_config ::
  "(string \<Rightarrow> 'n json option) \<Rightarrow> ('n json \<Rightarrow> bool) \<Rightarrow> string \<Rightarrow> filesystem
     \<Rightarrow> error + 'n json" where
  "read_linkage_config loads registered config_file fs =
     (case fs config_file of
        None \<Rightarrow> Inl FileNotFoundError
      | Some content \<Rightarrow>
          (case loads content of
             None \<Rightarrow> Inl JSONDecodeError
           | Some algo \<Rightarrow> if registered algo then Inr algo else Inl InvalidConfig))"

section \<open>JSON text\<close>

text \<open>
  The encoder and the decoder of Python's \<^verbatim>\<open>json\<close> module, \<^verbatim>\<open>json.dump\<close> and \<^verbatim>\<open>json.load\<close>,
  on values whose numbers are decimals.
\<close>

text \<open>
  A number of a JSON text as a decimal: \<open>Number m d\<close> is \<open>m / 10\<^sup>d\<close>, written with \<open>d\<close> digits
  after the point and as an integer when \<open>d = 0\<close>. Numbers written with an exponent are
  outside this representation.
\<close>

datatype number = Number int nat

abbreviation dquote :: char where "dquote \<equiv> CHR 0x22"
abbreviation backslash :: char where "backslash \<equiv> CHR 0x5C"

text \<open>Decimal digits: the text of a natural number and the value of a run of digits.\<close>

definition digit_char :: "nat \<Rightarrow> char" where
  "digit_char n = char_of (48 + n)"

definition is_digit :: "char \<Rightarrow> bool" where
  "is_digit c \<longleftrightarrow> 48 \<le> (of_char c :: nat) \<and> (of_char c :: nat) \<le> 57"

definition digit_val :: "char \<Rightarrow> nat" where
  "digit_val c = of_char c - 48"

function nat_digits :: "nat \<Rightarrow> string" where
  "nat_digits n = (if n < 10 then [digit_char n] else nat_digits (n div 10) @ [digit_char (n mod 10)])"
  by pat_completeness auto
termination
  by (relation "measure id") auto

fun frac_digits :: "nat \<Rightarrow> nat \<Rightarrow> string" where
  "frac_digits 0 n = []"
| "frac_digits (Suc d) n = frac_digits d (n div 10) @ [digit_char (n mod 10)]"

definition digits_val :: "string \<Rightarrow> nat" where
  "digits_val ds = foldl (\<lambda>a c. 10 * a + digit_val c) 0 ds"

text \<open>The text of a number, and the decoder of numbers: a sign, digits without a leading zero,
  and a fraction.\<close>

fun number_text :: "number \<Rightarrow> string" where
  "number_text (Number m d) =
     (if m < 0 then ''-'' else []) @ nat_digits (nat \<bar>m\<bar> div 10 ^ d)
       @ (if d = 0 then [] else CHR ''.'' # frac_digits d (nat \<bar>m\<bar> mod 10 ^ d))"

definition digits_span :: "string \<Rightarrow> string \<times> string" where
  "digits_span s = (takeWhile is_digit s, dropWhile is_digit s)"

definition parse_unsigned :: "string \<Rightarrow> ((nat \<times> nat) \<times> string) option" where
  "parse_unsigned s =
     (let (ds, s2) = digits_span s
      in if ds = [] \<or> (1 < length ds \<and> hd ds = CHR ''0'') then None
         else
           (case s2 of
              [] \<Rightarrow> Some ((digits_val ds, 0), s2)
            | c # r \<Rightarrow>
                if c = CHR ''.'' then
                  (let (fs, s3) = digits_span r
                   in if fs = [] then None
                      else Some ((digits_val ds * 10 ^ length fs + digits_val fs, length fs), s3))
                else Some ((digits_val ds, 0), s2)))"

definition parse_number :: "string \<Rightarrow> (number \<times> string) option" where
  "parse_number s =
     (case s of
        [] \<Rightarrow> None
      | c # r \<Rightarrow>
          if c = CHR ''-'' then
            (case parse_unsigned r of
               None \<Rightarrow> None
             | Some ((n, d), r') \<Rightarrow> Some (Number (- int n) d, r'))
          else
            (case parse_unsigned s of
               None \<Rightarrow> None
             | Some ((n, d), r') \<Rightarrow> Some (Number (int n) d, r')))"

text \<open>
  The text of a string as \<^verbatim>\<open>json.dump\<close> writes it with \<^verbatim>\<open>ensure_ascii\<close>: the quote and the
  backslash escaped, the short escapes for newline, carriage return, tab, backspace and
  form feed, \<^verbatim>\<open>\u00XX\<close> for every other character outside the printable ASCII range. The
  decoder reads the text after the opening quote up to the closing one.
\<close>

definition hex_char :: "nat \<Rightarrow> char" where
  "hex_char n = ''0123456789abcdef'' ! n"

definition hex_val :: "char \<Rightarrow> nat option" where
  "hex_val c =
     (if is_digit c then Some (digit_val c)
      else if 97 \<le> (of_char c :: nat) \<and> (of_char c :: nat) \<le> 102 then Some (of_char c - 87)
      else if 65 \<le> (of_char c :: nat) \<and> (of_char c :: nat) \<le> 70 then Some (of_char c - 55)
      else None)"

definition escape_char :: "char \<Rightarrow> string" where
  "escape_char c =
     (if c = dquote then [backslash, dquote]
      else if c = backslash then [backslash, backslash]
      else if c = CHR 0x0A then [backslash, CHR ''n'']
      else if c = CHR 0x0D then [backslash, CHR ''r'']
      else if c = CHR 0x09 then [backslash, CHR ''t'']
      else if c = CHR 0x08 then [backslash, CHR ''b'']
      else if c = CHR 0x0C then [backslash, CHR ''f'']
      else if 32 \<le> (of_char c :: nat) \<and> (of_char c :: nat) \<le> 126 then [c]
      else [backslash, CHR ''u'', CHR ''0'', CHR ''0'',
            hex_char (of_char c div 16), hex_char (of_char c mod 16)])"

definition string_text :: "string \<Rightarrow> string" where
  "string_text s = dquote # concat (map escape_char s) @ [dquote]"

definition unescape :: "char \<Rightarrow> char option" where
  "unescape e =
     (if e = dquote then Some dquote
      else if e = backslash then Some backslash
      else if e = CHR ''/'' then Some CHR ''/''
      else if e = CHR ''n'' then Some (CHR 0x0A)
      else if e = CHR ''r'' then Some (CHR 0x0D)
      else if e = CHR ''t'' then Some (CHR 0x09)
      else if e = CHR ''b'' then Some (CHR 0x08)
      else if e = CHR ''f'' then Some (CHR 0x0C)
      else None)"

fun parse_string :: "string \<Rightarrow> (string \<times> string) option" where
  "parse_string [] = None"
| "parse_string (c # s) =
     (if c = dquote then Some ([], s)
      else if c = backslash then
        (case s of
           [] \<Rightarrow> None
         | e # s1 \<Rightarrow>
             if e = CHR ''u'' then
               (case s1 of
                  a # b # h # l # s2 \<Rightarrow>
                    (if a = CHR ''0'' \<and> b = CHR ''0'' then
                       (case (hex_val h, hex_val l) of
                          (Some x, Some y) \<Rightarrow>
                            (case parse_string s2 of
                               None \<Rightarrow> None
                             | Some (str, r) \<Rightarrow> Some (char_of (16 * x + y) # str, r))
                        | _ \<Rightarrow> None)
                     else None)
                | _ \<Rightarrow> None)
             else
               (case unescape e of
                  None \<Rightarrow> None
                | Some ch \<Rightarrow>
                    (case parse_string s1 of
                       None \<Rightarrow> None
                     | Some (str, r) \<Rightarrow> Some (ch # str, r))))
      else if (of_char c :: nat) < 32 then None
      else (case parse_string s of None \<Rightarrow> None | Some (str, r) \<Rightarrow> Some (c # str, r)))"

text \<open>
  The text of a value in the default layout of \<^verbatim>\<open>json.dump\<close>: items separated by a comma
  and a space, a key and its value by a colon and a space.
\<close>

fun join :: "string \<Rightarrow> string list \<Rightarrow> string" where
  "join sep [] = []"
| "join sep [x] = x"
| "join sep (x # y # ys) = x @ sep @ join sep (y # ys)"

fun json_dumps :: "number json \<Rightarrow> string" where
  "json_dumps JNull = ''null''"
| "json_dumps (JBool b) = (if b then ''true'' else ''false'')"
| "json_dumps (JNum n) = number_text n"
| "json_dumps (JStr s) = string_text s"
| "json_dumps (JList vs) = ''['' @ join '', '' (map json_dumps vs) @ '']''"
| "json_dumps (JDict kvs) =
     ''{'' @ join '', '' (map (\<lambda>(k, v). string_text k @ '': '' @ json_dumps v) kvs) @ ''}''"

text \<open>
  The decoder. White space is skipped before every token. The recursion into lists and
  dicts is by fuel: each nested call has one unit less, and \<open>json_loads\<close> starts with more
  fuel than the text has characters. A text that is not JSON, or that has anything but
  white space after the value, gives \<open>None\<close>.
\<close>

definition is_ws :: "char \<Rightarrow> bool" where
  "is_ws c \<longleftrightarrow> c = CHR '' '' \<or> c = CHR 0x09 \<or> c = CHR 0x0A \<or> c = CHR 0x0D"

definition skip_ws :: "string \<Rightarrow> string" where
  "skip_ws s = dropWhile is_ws s"

definition strip_prefix :: "string \<Rightarrow> string \<Rightarrow> string option" where
  "strip_prefix p s = (if take (length p) s = p then Some (drop (length p) s) else None)"

definition parse_atom :: "string \<Rightarrow> (number json \<times> string) option" where
  "parse_atom s =
     (case s of
        [] \<Rightarrow> None
      | c # r \<Rightarrow>
          if c = dquote then
            (case parse_string r of None \<Rightarrow> None | Some (str, r') \<Rightarrow> Some (JStr str, r'))
          else
            (case strip_prefix ''null'' s of
               Some r' \<Rightarrow> Some (JNull, r')
             | None \<Rightarrow>
                 (case strip_prefix ''true'' s of
                    Some r' \<Rightarrow> Some (JBool True, r')
                  | None \<Rightarrow>
                      (case strip_prefix ''false'' s of
                         Some r' \<Rightarrow> Some (JBool False, r')
                       | None \<Rightarrow>
                           (case parse_number s of
                              None \<Rightarrow> None
                            | Some (x, r') \<Rightarrow> Some (JNum x, r'))))))"

fun parse_value :: "nat \<Rightarrow> string \<Rightarrow> (number json \<times> string) option"
  and parse_elems :: "nat \<Rightarrow> string \<Rightarrow> (number json list \<times> string) option"
  and parse_members :: "nat \<Rightarrow> string \<Rightarrow> ((string \<times> number json) list \<times> string) option"
where
  "parse_value 0 s = None"
| "parse_value (Suc n) s =
     (case skip_ws s of
        [] \<Rightarrow> None
      | c # r \<Rightarrow>
          if c = CHR ''['' then
            (case skip_ws r of
               [] \<Rightarrow> None
             | c' # r' \<Rightarrow>
                 if c' = CHR '']'' then Some (JList [], r')
                 else (case parse_elems n r of None \<Rightarrow> None | Some (vs, r'') \<Rightarrow> Some (JList vs, r'')))
          else if c = CHR ''{'' then
            (case skip_ws r of
               [] \<Rightarrow> None
             | c' # r' \<Rightarrow>
                 if c' = CHR ''}'' then Some (JDict [], r')
                 else (case parse_members n r of None \<Rightarrow> None | Some (kvs, r'') \<Rightarrow> Some (JDict kvs, r'')))
          else parse_atom (c # r))"
| "parse_elems 0 s = None"
| "parse_elems (Suc n) s =
     (case parse_value n s of
        None \<Rightarrow> None
      | Some (v, r) \<Rightarrow>
          (case skip_ws r of
             [] \<Rightarrow> None
           | c # r' \<Rightarrow>
               if c = CHR '','' then
                 (case parse_elems n r' of None \<Rightarrow> None | Some (vs, r'') \<Rightarrow> Some (v # vs, r''))
               else if c = CHR '']'' then Some ([v], r')
               else None))"
| "parse_members 0 s = None"
| "parse_members (Suc n) s =
     (case skip_ws s of
        [] \<Rightarrow> None
      | q # r \<Rightarrow>
          if q \<noteq> dquote then None
          else
            (case parse_string r of
               None \<Rightarrow> None
             | Some (k, r1) \<Rightarrow>
                 (case skip_ws r1 of
                    [] \<Rightarrow> None
                  | c # r2 \<Rightarrow>
                      if c \<noteq> CHR '':'' then None
                      else
                        (case parse_value n r2 of
                           None \<Rightarrow> None
                         | Some (v, r3) \<Rightarrow>
                             (case skip_ws r3 of
                                [] \<Rightarrow> None
                              | d # r4 \<Rightarrow>
                                  if d = CHR '','' then
                                    (case parse_members n r4 of
                                       None \<Rightarrow> None
                                     | Some (kvs, r5) \<Rightarrow> Some ((k, v) # kvs, r5))
                                  else if d = CHR ''}'' then Some ([(k, v)], r4)
                                  else None)))))"

definition json_loads :: "string \<Rightarrow> number json option" where
  "json_loads s =
     (case parse_value (Suc (length s)) s of
        None \<Rightarrow> None
      | Some (j, r) \<Rightarrow> if skip_ws r = [] then Some j else None)"

text \<open>
  Three notions for the proofs about the decoder: the texts that may follow a value (the
  end, a comma or a closing bracket), the characters that may start a value, and the text
  of one item of a dict.
\<close>

definition follow :: "string \<Rightarrow> bool" where
  "follow r \<longleftrightarrow> (case r of [] \<Rightarrow> True | c # _ \<Rightarrow> c = CHR '','' \<or> c = CHR '']'' \<or> c = CHR ''}'')"

definition opens :: "char \<Rightarrow> bool" where
  "opens c \<longleftrightarrow> \<not> is_ws c \<and> c \<noteq> CHR '']'' \<and> c \<noteq> CHR ''}''"

definition member_text :: "string \<times> number json \<Rightarrow> string" where
  "member_text = (\<lambda>(k, v). string_text k @ '': '' @ json_dumps v)"


text \<open>
  The dotted paths of the function references of a description, and the strings that are
  values (not keys) of a JSON value.
\<close>

fun func_refs :: "'n config \<Rightarrow> string list" where
  "func_refs (CFunc path) = [path]"
| "func_refs (CList vs) = concat (map func_refs vs)"
| "func_refs (CDict kvs) = concat (map (\<lambda>(k, v). func_refs v) kvs)"
| "func_refs _ = []"

fun string_leaves :: "'n json \<Rightarrow> string list" where
  "string_leaves (JStr s) = [s]"
| "string_leaves (JList vs) = concat (map string_leaves vs)"
| "string_leaves (JDict kvs) = concat (map (\<lambda>(k, v). string_leaves v) kvs)"
| "string_leaves _ = []"


section \<open>SHA-256 and the hash of a linking identifier\<close>

text \<open>
  The digest of \<^verbatim>\<open>hashlib.sha256\<close>, as FIPS 180-4 defines it, on 32-bit words: the six
  logical functions, the 64 round constants, the initial hash value, the message
  schedule, the compression of one block of 16 words, and the padding of the message.
\<close>

type_synonym byte = "8 word"
type_synonym word32 = "32 word"

definition rotr :: "nat \<Rightarrow> word32 \<Rightarrow> word32" where
  "rotr n x = word_rotr n x"

definition Ch :: "word32 \<Rightarrow> word32 \<Rightarrow> word32 \<Rightarrow> word32" where
  "Ch x y z = (x AND y) XOR (NOT x AND z)"

definition Maj :: "word32 \<Rightarrow> word32 \<Rightarrow> word32 \<Rightarrow> word32" where
  "Maj x y z = (x AND y) XOR (x AND z) XOR (y AND z)"

definition Sigma0 :: "word32 \<Rightarrow> word32" where
  "Sigma0 x = rotr 2 x XOR rotr 13 x XOR rotr 22 x"

definition Sigma1 :: "word32 \<Rightarrow> word32" where
  "Sigma1 x = rotr 6 x XOR rotr 11 x XOR rotr 25 x"

definition sigma0 :: "word32 \<Rightarrow> word32" where
  "sigma0 x = rotr 7 x XOR rotr 18 x XOR drop_bit 3 x"

definition sigma1 :: "word32 \<Rightarrow> word32" where
  "sigma1 x = rotr 17 x XOR rotr 19 x XOR drop_bit 10 x"

definition K256 :: "word32 list" where
  "K256 =
    [0x428a2f98, 0x71374491, 0xb5c0fbcf, 0xe9b5dba5, 0x3956c25b, 0x59f111f1, 0x923f82a4, 0xab1c5ed5,
     0xd807aa98, 0x12835b01, 0x243185be, 0x550c7dc3, 0x72be5d74, 0x80deb1fe, 0x9bdc06a7, 0xc19bf174,
     0xe49b69c1, 0xefbe4786, 0x0fc19dc6, 0x240ca1cc, 0x2de92c6f, 0x4a7484aa, 0x5cb0a9dc, 0x76f988da,
     0x983e5152, 0xa831c66d, 0xb00327c8, 0xbf597fc7, 0xc6e00bf3, 0xd5a79147, 0x06ca6351, 0x14292967,
     0x27b70a85, 0x2e1b2138, 0x4d2c6dfc, 0x53380d13, 0x650a7354, 0x766a0abb, 0x81c2c92e, 0x92722c85,
     0xa2bfe8a1, 0xa81a664b, 0xc24b8b70, 0xc76c51a3, 0xd192e819, 0xd6990624, 0xf40e3585, 0x106aa070,
     0x19a4c116, 0x1e376c08, 0x2748774c, 0x34b0bcb5, 0x391c0cb3, 0x4ed8aa4a, 0x5b9cca4f, 0x682e6ff3,
     0x748f82ee, 0x78a5636f, 0x84c87814, 0x8cc70208, 0x90befffa, 0xa4506ceb, 0xbef9a3f7, 0xc67178f2]"

definition H256 :: "word32 list" where
  "H256 =
    [0x6a09e667, 0xbb67ae85, 0x3c6ef372, 0xa54ff53a, 0x510e527f, 0x9b05688c, 0x1f83d9ab, 0x5be0cd19]"

text \<open>
  The schedule is built with its latest word first: from the sixteen latest words
  \<open>W\<^bsub>t-1\<^esub>, \<dots>, W\<^bsub>t-16\<^esub>\<close> the next one is
  \<open>\<sigma>\<^sub>1(W\<^bsub>t-2\<^esub>) + W\<^bsub>t-7\<^esub> + \<sigma>\<^sub>0(W\<^bsub>t-15\<^esub>) + W\<^bsub>t-16\<^esub>\<close>.
\<close>

fun next_w :: "word32 list \<Rightarrow> word32 list" where
  "next_w (w1 # w2 # w3 # w4 # w5 # w6 # w7 # w8 # w9 # w10 # w11 # w12 # w13 # w14 # w15 # w16 # ws) =
     (sigma1 w2 + w7 + sigma0 w15 + w16)
       # w1 # w2 # w3 # w4 # w5 # w6 # w7 # w8 # w9 # w10 # w11 # w12 # w13 # w14 # w15 # w16 # ws"
| "next_w ws = ws"

definition schedule :: "word32 list \<Rightarrow> word32 list" where
  "schedule block = rev ((next_w ^^ 48) (rev block))"

fun sha_round :: "word32 list \<Rightarrow> word32 \<times> word32 \<Rightarrow> word32 list" where
  "sha_round [a, b, c, d, e, f, g, h] (k, w) =
     (let T1 = h + Sigma1 e + Ch e f g + k + w;
          T2 = Sigma0 a + Maj a b c
      in [T1 + T2, a, b, c, d + T1, e, f, g])"
| "sha_round s _ = s"

definition compress :: "word32 list \<Rightarrow> word32 list \<Rightarrow> word32 list" where
  "compress H block = map2 (+) H (foldl sha_round H (zip K256 (schedule block)))"

text \<open>Four bytes make a word and a word makes four bytes, most significant byte first.\<close>

fun be32 :: "byte list \<Rightarrow> word32 list" where
  "be32 (a # b # c # d # bs) =
     (push_bit 24 (ucast a) OR push_bit 16 (ucast b) OR push_bit 8 (ucast c) OR ucast d) # be32 bs"
| "be32 _ = []"

definition be_bytes :: "nat \<Rightarrow> 'a::len word \<Rightarrow> byte list" where
  "be_bytes n w = map (\<lambda>i. ucast (drop_bit (8 * i) w)) (rev [0..<n])"

text \<open>
  The padding: the byte \<open>0x80\<close>, the least number of zero bytes that brings the length
  to 56 modulo 64, and the length of the message in bits as a 64-bit word.
\<close>

definition pad :: "byte list \<Rightarrow> byte list" where
  "pad m = m @ [0x80] @ replicate ((119 - length m mod 64) mod 64) 0
             @ be_bytes 8 (word_of_nat (8 * length m) :: 64 word)"

function blocks :: "word32 list \<Rightarrow> word32 list \<Rightarrow> word32 list" where
  "blocks H ws = (if length ws < 16 then H else blocks (compress H (take 16 ws)) (drop 16 ws))"
  by pat_completeness auto
termination
  by (relation "measure (\<lambda>(H, ws). length ws)") auto

definition sha256 :: "byte list \<Rightarrow> byte list" where
  "sha256 m = concat (map (be_bytes 4) (blocks H256 (be32 (pad m))))"

text \<open>\<^verbatim>\<open>hexdigest()\<close>: two lowercase hexadecimal digits for each byte.\<close>

definition hexdigit :: "byte \<Rightarrow> char" where
  "hexdigit n = ''0123456789abcdef'' ! unat n"

definition hexdigest :: "byte list \<Rightarrow> string" where
  "hexdigest bs = concat (map (\<lambda>b. [hexdigit (drop_bit 4 b), hexdigit (b AND 0xF)]) bs)"

text \<open>
  \<^verbatim>\<open>str.encode("utf-8")\<close> on code points below 256: one byte below 128, two bytes from
  128 on.
\<close>

definition utf8 :: "string \<Rightarrow> byte list" where
  "utf8 s = concat (map (\<lambda>c.
     if (of_char c :: nat) < 128 then [of_char c]
     else [0xC0 OR drop_bit 6 (of_char c), 0x80 OR (of_char c AND 0x3F)]) s)"

text \<open>
  Modelled from the spec: \<^verbatim>\<open>generate_hash_str(linking_identifier, salt_str)\<close> of
  \<^verbatim>\<open>recordlinker/linkage/link.py\<close>, missing from the sources, which hold its test
  \<^verbatim>\<open>test_generate_hash\<close>. The specification gives the digest (SHA-256, lowercase hexadecimal). The
  bytes that are hashed are those of the identifier followed by those of the salt: this
  is the order that gives the two digests \<^verbatim>\<open>test_generate_hash\<close> expects.
\<close>

definition generate_hash_str :: "string \<Rightarrow> string \<Rightarrow> string" where
  "generate_hash_str linking_identifier salt_str =
     hexdigest (sha256 (utf8 (linking_identifier @ salt_str)))"

text \<open>
  The digest in the words of the specification: SHA-256 of the salt, a newline and the
  payload.
\<close>

definition hash_salt_newline_payload :: "string \<Rightarrow> string \<Rightarrow> string" where
  "hash_salt_newline_payload payload salt = hexdigest (sha256 (utf8 (salt @ [CHR 0x0A] @ payload)))"

section \<open>Concrete inputs\<close>

text \<open>A dict whose only entry is a dict holding a single \<^verbatim>\<open>None\<close>: \<^verbatim>\<open>{"a": {"b": None}}\<close>.\<close>

definition nested_null :: "int json" where
  "nested_null = JDict [(''a'', JDict [(''b'', JNull)])]"

text \<open>
  The JSON form of a record with an MRN and one address of which no field is set:
  every field of the address is \<^verbatim>\<open>None\<close> or an empty list.
\<close>

definition blank_address_dump :: "int json" where
  "blank_address_dump = JDict
     [(''external_id'', JNull), (''birth_date'', JNull), (''sex'', JNull), (''mrn'', JStr ''99''),
      (''address'', JList [JDict [(''line'', JList []), (''city'', JNull), (''state'', JNull),
                                  (''postal_code'', JNull), (''country'', JNull)]]),
      (''name'', JList []), (''telecom'', JList [])]"

text \<open>
  The values \<^verbatim>\<open>field_iter\<close> yields for the record of \<^verbatim>\<open>test_field_iter\<close>, with a fourth
  given name added; any other field name is refused.
\<close>

definition doe_iter :: "string \<Rightarrow> error + string list" where
  "doe_iter name =
     (if name = ''birthdate'' then Inr [''1980-02-01'']
      else if name = ''mrn'' then Inr [''123456'']
      else if name = ''sex'' then Inr [''M'']
      else if name = ''zip'' then Inr [''12345'', ''98765'']
      else if name = ''first_name'' then Inr [''John'', ''L'', ''Jane'', ''Johnny'']
      else if name = ''last_name'' then Inr [''Doe'', ''Smith'']
      else Inl ValueError)"

text \<open>A record with a postal code of 21 characters.\<close>

definition long_zip_iter :: "string \<Rightarrow> error + string list" where
  "long_zip_iter name =
     (if name = ''zip'' then Inr [''12345'', ''123456789012345678901''] else Inr [])"

text \<open>A record with one name whose given names are \<^verbatim>\<open>"John"\<close> and a single space.\<close>

definition padded_given_iter :: "string \<Rightarrow> error + string list" where
  "padded_given_iter name = Inr (if name = ''first_name'' then [''John'', '' ''] else [])"

text \<open>A patient whose data was never set, and one that holds an MRN.\<close>

definition unset_patient :: "int patient" where
  "unset_patient = \<lparr>id_col = 1, person_id = 1, data = JNull, external_patient_id = None,
     external_person_id = None, external_person_source = None\<rparr>"

definition mrn_patient :: "int patient" where
  "mrn_patient = \<lparr>id_col = 2, person_id = 1, data = JDict [(''mrn'', JStr ''99'')],
     external_patient_id = None, external_person_id = None, external_person_source = None\<rparr>"

text \<open>A constructor that accepts every dict and keeps the keyword arguments as the record.\<close>

definition keep_kwargs :: "(string \<times> int json) list \<Rightarrow> error + (string \<times> int json) list" where
  "keep_kwargs kwargs = Inr kwargs"

text \<open>
  The description that \<^verbatim>\<open>test_algo_write\<close> writes, with its matchers and rules as
  function references, the value the test expects to read back, and the text of that
  value.
\<close>

definition sample_algo :: "number config" where
  "sample_algo = CList
     [CDict
        [(''funcs'', CDict
           [(''first_name'', CFunc ''recordlinker.linkage.matchers.feature_match_fuzzy_string''),
            (''last_name'', CFunc ''recordlinker.linkage.matchers.feature_match_exact'')]),
         (''blocks'', CList [CStr ''MRN4'', CStr ''ADDRESS4'']),
         (''matching_rule'', CFunc ''recordlinker.linkage.matchers.eval_perfect_match'')],
      CDict
        [(''funcs'', CDict
           [(''last_name'', CFunc ''recordlinker.linkage.matchers.feature_match_four_char''),
            (''sex'', CFunc ''recordlinker.linkage.matchers.feature_match_log_odds_exact''),
            (''address'', CFunc ''recordlinker.linkage.matchers.feature_match_log_odds_fuzzy_compare'')]),
         (''blocks'', CList [CStr ''ZIP'', CStr ''BIRTH_YEAR'']),
         (''matching_rule'', CFunc ''recordlinker.linkage.matchers.eval_log_odds_cutoff''),
         (''cluster_ratio'', CNum (Number 9 1)),
         (''kwargs'', CDict
           [(''similarity_measure'', CStr ''Levenshtein''), (''threshold'', CNum (Number 85 2))])]]"

definition loaded_algo :: "number json" where
  "loaded_algo = JList
     [JDict
        [(''funcs'', JDict
           [(''first_name'', JStr ''func:recordlinker.linkage.matchers.feature_match_fuzzy_string''),
            (''last_name'', JStr ''func:recordlinker.linkage.matchers.feature_match_exact'')]),
         (''blocks'', JList [JStr ''MRN4'', JStr ''ADDRESS4'']),
         (''matching_rule'', JStr ''func:recordlinker.linkage.matchers.eval_perfect_match'')],
      JDict
        [(''funcs'', JDict
           [(''last_name'', JStr ''func:recordlinker.linkage.matchers.feature_match_four_char''),
            (''sex'', JStr ''func:recordlinker.linkage.matchers.feature_match_log_odds_exact''),
            (''address'', JStr ''func:recordlinker.linkage.matchers.feature_match_log_odds_fuzzy_compare'')]),
         (''blocks'', JList [JStr ''ZIP'', JStr ''BIRTH_YEAR'']),
         (''matching_rule'', JStr ''func:recordlinker.linkage.matchers.eval_log_odds_cutoff''),
         (''cluster_ratio'', JNum (Number 9 1)),
         (''kwargs'', JDict
           [(''similarity_measure'', JStr ''Levenshtein''), (''threshold'', JNum (Number 85 2))])]]"

definition loaded_text :: string where
  \<open>loaded_text = ''[{"funcs": {"first_name": "func:recordlinker.linkage.matchers.feature_match_fuzzy_string", "last_name": "func:recordlinker.linkage.matchers.feature_match_exact"}, "blocks": ["MRN4", "ADDRESS4"], "matching_rule": "func:recordlinker.linkage.matchers.eval_perfect_match"}, {"funcs": {"last_name": "func:recordlinker.linkage.matchers.feature_match_four_char", "sex": "func:recordlinker.linkage.matchers.feature_match_log_odds_exact", "address": "func:recordlinker.linkage.matchers.feature_match_log_odds_fuzzy_compare"}, "blocks": ["ZIP", "BIRTH_YEAR"], "matching_rule": "func:recordlinker.linkage.matchers.eval_log_odds_cutoff", "cluster_ratio": 0.9, "kwargs": {"similarity_measure": "Levenshtein", "threshold": 0.85}}]''\<close>

text \<open>A registry that knows every identifier.\<close>

definition every_identifier :: "number json \<Rightarrow> bool" where
  "every_identifier doc = True"

text \<open>The two file systems of \<^verbatim>\<open>test_read_algo_errors\<close>.\<close>

definition no_files :: filesystem where
  "no_files = Map.empty"

definition garbage_file :: filesystem where
  "garbage_file =
     [''not_valid_json_test.json'' \<mapsto> ''this is a random string that is not in json format'']"

text \<open>The two identifiers and the salt of \<^verbatim>\<open>test_generate_hash\<close>.\<close>

definition john_shepard :: string where
  "john_shepard = ''John-Shepard-2153/11/07-1234 Silversun Strip Boston Massachusetts 99999''"

definition tali_zora :: string where
  "tali_zora = ''Tali-Zora-Vas-Normandy-2160/05/14-PO Box 1 Rock Rannoch''"

definition legit_salt :: string where
  "legit_salt = ''super-legit-salt''"

section \<open>Scrubbing\<close>

text \<open>
  A value without empty leaves is left as it is, so a second scrub changes the result of
  the first only where the first has emptied a dict or a list.
\<close>

lemma scrub_empty_fixed: "no_empty_leaves v \<Longrightarrow> scrub_empty v = v"
proof (induction v)
  case (JList vs)
  then have "\<forall>v\<in>set vs. \<not> is_empty v \<and> scrub_empty v = v"
    by (auto simp: list_all_iff)
  then have "concat (map (\<lambda>v. if \<not> is_empty v then [scrub_empty v] else []) vs) = vs"
    by (induction vs) auto
  then show ?case by simp
next
  case (JDict kvs)
  then have "\<forall>(k, v)\<in>set kvs. \<not> is_empty v \<and> scrub_empty v = v"
    by (fastforce simp: list_all_iff)
  then have "concat (map (\<lambda>(k, v). if \<not> is_empty v then [(k, scrub_empty v)] else []) kvs) = kvs"
    by (induction kvs) auto
  then show ?case by simp
qed simp_all

text \<open>
  Claim C1: scrubbing twice gives the same value as scrubbing once. It fails on
  \<^verbatim>\<open>{"a": {"b": None}}\<close>: the inner dict is not empty when the outer comprehension tests it,
  the recursive call then empties it, and the result \<^verbatim>\<open>{"a": {}}\<close> holds an empty dict
  that a second scrub removes.
\<close>

theorem scrub_empty_not_idempotent:
  "scrub_empty nested_null = JDict [(''a'', JDict [])] \<and>
   scrub_empty (scrub_empty nested_null) = JDict [] \<and>
   scrub_empty (scrub_empty nested_null) \<noteq> scrub_empty nested_null"
  by (simp add: nested_null_def is_empty_def)

text \<open>
  Claim C2: the data stored by the setter of \<^verbatim>\<open>Patient.record\<close> holds no null, empty list
  or empty dict at any depth. For a record with an address of which no field is set, the
  stored data holds the empty dict that is left of the address.
\<close>

theorem record_set_keeps_empty_dict:
  "data (record_set id unset_patient blank_address_dump) =
     JDict [(''mrn'', JStr ''99''), (''address'', JList [JDict []])] \<and>
   \<not> no_empty_leaves (data (record_set id unset_patient blank_address_dump))"
  by (simp add: record_set_def blank_address_dump_def is_empty_def)

section \<open>Blocking values\<close>

lemma to_value_Inr:
  "to_value K fi = Inr vals \<longleftrightarrow>
     key_vals K fi = Inr vals \<and> (\<forall>x\<in>vals. length x \<le> BLOCKING_VALUE_MAX_LENGTH)"
  by (auto simp: to_value_def not_le split: sum.splits)

text \<open>
  Claim C3: every string of a set returned by \<^verbatim>\<open>to_value\<close> has at most 20 characters, and
  when one of the derived values has more than 20 characters \<^verbatim>\<open>to_value\<close> raises
  \<^verbatim>\<open>RuntimeError\<close> and returns nothing.
\<close>

theorem to_value_max_length:
  "(to_value K field_iter = Inr vals \<longrightarrow> (\<forall>x\<in>vals. length x \<le> 20)) \<and>
   (key_vals K field_iter = Inr vs \<and> (\<exists>x\<in>vs. 20 < length x)
      \<longrightarrow> to_value K field_iter = Inl RuntimeError)"
  by (auto simp: to_value_def BLOCKING_VALUE_MAX_LENGTH_def split: sum.splits if_splits)

theorem to_value_max_length_witness:
  "to_value ZIP doe_iter = Inr {''12345'', ''98765''} \<and>
   length ''12345'' \<le> 20 \<and> length ''98765'' \<le> 20 \<and>
   key_vals ZIP long_zip_iter = Inr {''12345'', ''123456789012345678901''} \<and>
   20 < length ''123456789012345678901'' \<and>
   to_value ZIP long_zip_iter = Inl RuntimeError"
proof -
  have r: "to_value ZIP doe_iter = Inr {''12345'', ''98765''}"
    by (simp add: to_value_def doe_iter_def BLOCKING_VALUE_MAX_LENGTH_def)
  have k: "key_vals ZIP long_zip_iter = Inr {''12345'', ''123456789012345678901''}"
    by (simp add: long_zip_iter_def)
  have l: "20 < length ''123456789012345678901''"
    by simp
  from to_value_max_length [of ZIP doe_iter "{''12345'', ''98765''}"] r
  have "length ''12345'' \<le> 20 \<and> length ''98765'' \<le> 20" by blast
  moreover from to_value_max_length
    [of ZIP long_zip_iter _ "{''12345'', ''123456789012345678901''}"] k l
  have "to_value ZIP long_zip_iter = Inl RuntimeError" by blast
  ultimately show ?thesis using r k l by blast
qed

lemma key_vals_derivation:
  "key_vals K fi = Inr vals \<Longrightarrow> \<exists>xs. fi (field_of K) = Inr xs \<and> vals = derivation K ` set xs"
  by (cases K) (auto split: sum.splits)

text \<open>
  Claim C4: no element of a set returned by \<^verbatim>\<open>to_value\<close> is empty or made of whitespace
  only. \<^verbatim>\<open>to_value\<close> has no step that drops a value, so a given name that is a single space
  is returned as it is.
\<close>

theorem to_value_blank_counterexample:
  "to_value FIRST_NAME padded_given_iter = Inr {''John'', '' ''} \<and> blank '' ''"
  by (simp add: to_value_def padded_given_iter_def BLOCKING_VALUE_MAX_LENGTH_def
      blank_def isspace_def)

text \<open>
  Claim C4, amended: the set returned by \<^verbatim>\<open>to_value\<close> is exactly the set of the derived
  values (the whole value, its last four or its first four characters, by the key) of the
  values that \<^verbatim>\<open>field_iter\<close> yields for the field of the key, none dropped; so it has an
  element that is empty or made of whitespace only exactly when one of those derived
  values is.
\<close>

theorem to_value_drops_nothing:
  assumes "to_value K field_iter = Inr vals"
  shows "\<exists>xs. field_iter (field_of K) = Inr xs \<and> vals = derivation K ` set xs \<and>
           ((\<exists>v\<in>vals. blank v) \<longleftrightarrow> (\<exists>x\<in>set xs. blank (derivation K x)))"
proof -
  from assms have "key_vals K field_iter = Inr vals" by (simp add: to_value_Inr)
  then obtain xs where "field_iter (field_of K) = Inr xs" and "vals = derivation K ` set xs"
    using key_vals_derivation by blast
  then show ?thesis by auto
qed

lemma padded_first: "to_value FIRST_NAME padded_given_iter = Inr {''John'', '' ''}"
  by (simp add: to_value_def padded_given_iter_def BLOCKING_VALUE_MAX_LENGTH_def)

theorem to_value_drops_nothing_witness:
  "to_value FIRST_NAME padded_given_iter = Inr {''John'', '' ''} \<and>
   (\<exists>xs. padded_given_iter (field_of FIRST_NAME) = Inr xs \<and>
      {''John'', '' ''} = derivation FIRST_NAME ` set xs \<and>
      ((\<exists>v\<in>{''John'', '' ''}. blank v) \<longleftrightarrow> (\<exists>x\<in>set xs. blank (derivation FIRST_NAME x))))"
  using to_value_drops_nothing [OF padded_first] padded_first by blast

text \<open>
  Claim C5: for the key \<^verbatim>\<open>MRN\<close> the returned set is the set of the last four characters of
  each MRN value of the record, for \<^verbatim>\<open>FIRST_NAME\<close> the set of the first four characters of
  each given name, and for \<^verbatim>\<open>LAST_NAME\<close> the set of the first four characters of each
  family name, the values of the record being those its \<^verbatim>\<open>field_iter\<close> yields. A set holds
  each value once, and the check of the length never fires on these keys.
\<close>

theorem to_value_mrn_first_last:
  "(field_iter ''mrn'' = Inr ms \<longrightarrow>
      to_value MRN field_iter = Inr (set (map (\<lambda>x. drop (length x - 4) x) ms))) \<and>
   (field_iter ''first_name'' = Inr gs \<longrightarrow>
      to_value FIRST_NAME field_iter = Inr (set (map (take 4) gs))) \<and>
   (field_iter ''last_name'' = Inr fs \<longrightarrow>
      to_value LAST_NAME field_iter = Inr (set (map (take 4) fs)))"
  by (auto simp: to_value_def BLOCKING_VALUE_MAX_LENGTH_def)

theorem to_value_mrn_first_last_witness:
  "doe_iter ''mrn'' = Inr [''123456''] \<and>
   doe_iter ''first_name'' = Inr [''John'', ''L'', ''Jane'', ''Johnny''] \<and>
   doe_iter ''last_name'' = Inr [''Doe'', ''Smith''] \<and>
   to_value MRN doe_iter = Inr {''3456''} \<and>
   to_value FIRST_NAME doe_iter = Inr {''John'', ''L'', ''Jane''} \<and>
   to_value LAST_NAME doe_iter = Inr {''Doe'', ''Smit''}"
proof -
  have m: "doe_iter ''mrn'' = Inr [''123456'']"
    and g: "doe_iter ''first_name'' = Inr [''John'', ''L'', ''Jane'', ''Johnny'']"
    and f: "doe_iter ''last_name'' = Inr [''Doe'', ''Smith'']"
    by (simp_all add: doe_iter_def)
  from to_value_mrn_first_last
    [of doe_iter "[''123456'']" "[''John'', ''L'', ''Jane'', ''Johnny'']" "[''Doe'', ''Smith'']"]
    m g f
  show ?thesis by auto
qed

section \<open>The record property\<close>

text \<open>
  Claim C10: when the data of a patient is absent or empty, the property \<^verbatim>\<open>record\<close> returns
  \<^verbatim>\<open>None\<close> without calling the constructor and without an error; when it returns a record,
  the data is a dict that is not empty and the record is what the constructor made of it;
  and whenever the outcome is not \<^verbatim>\<open>None\<close> (a record or an error) the data is not empty.
\<close>

theorem record_get_none:
  "(data self = JNull \<or> data self = JDict [] \<longrightarrow> record_get PIIRecord self = Inr None) \<and>
   (record_get PIIRecord self = Inr (Some r) \<longrightarrow>
      (\<exists>kwargs. data self = JDict kwargs \<and> kwargs \<noteq> [] \<and> PIIRecord kwargs = Inr r)) \<and>
   (record_get PIIRecord self \<noteq> Inr None \<longrightarrow> truthy (data self))"
  by (cases "data self") (auto simp: record_get_def split: sum.splits)

theorem record_get_none_witness:
  "data unset_patient = JNull \<and> record_get keep_kwargs unset_patient = Inr None \<and>
   record_get keep_kwargs mrn_patient = Inr (Some [(''mrn'', JStr ''99'')]) \<and>
   (\<exists>kwargs. data mrn_patient = JDict kwargs \<and> kwargs \<noteq> [] \<and>
      keep_kwargs kwargs = Inr [(''mrn'', JStr ''99'')]) \<and>
   record_get keep_kwargs mrn_patient \<noteq> Inr None \<and> truthy (data mrn_patient)"
proof -
  have d: "data unset_patient = JNull" by (simp add: unset_patient_def)
  have s: "record_get keep_kwargs mrn_patient = Inr (Some [(''mrn'', JStr ''99'')])"
    by (simp add: record_get_def mrn_patient_def keep_kwargs_def)
  then have n: "record_get keep_kwargs mrn_patient \<noteq> Inr None" by simp
  from record_get_none [of unset_patient keep_kwargs] d
  have "record_get keep_kwargs unset_patient = Inr None" by blast
  moreover from record_get_none [of mrn_patient keep_kwargs "[(''mrn'', JStr ''99'')]"] s n
  have "(\<exists>kwargs. data mrn_patient = JDict kwargs \<and> kwargs \<noteq> [] \<and>
      keep_kwargs kwargs = Inr [(''mrn'', JStr ''99'')]) \<and> truthy (data mrn_patient)" by blast
  ultimately show ?thesis using d s n by blast
qed

section \<open>Decoding the text of a value\<close>

subsection \<open>Numbers\<close>

declare nat_digits.simps [simp del]

lemma of_char_digit_char: "k < 10 \<Longrightarrow> (of_char (digit_char k) :: nat) = 48 + k"
  by (simp add: digit_char_def)

lemma digit_char_props:
  assumes "k < 10"
  shows "is_digit (digit_char k)" and "digit_val (digit_char k) = k"
  using assms by (simp_all add: is_digit_def digit_val_def of_char_digit_char)

lemma digit_char_zero:
  assumes "k < 10"
  shows "digit_char k = CHR ''0'' \<longleftrightarrow> k = 0"
proof
  assume "digit_char k = CHR ''0''"
  then have "(of_char (digit_char k) :: nat) = of_char (CHR ''0'')" by simp
  with assms show "k = 0" by (simp add: of_char_digit_char)
next
  assume "k = 0"
  then have "(of_char (digit_char k) :: nat) = of_char (CHR ''0'')"
    by (simp add: of_char_digit_char)
  then show "digit_char k = CHR ''0''" by (simp only: of_char_eq_iff)
qed

lemma nat_digits_digits: "\<forall>c\<in>set (nat_digits n). is_digit c"
  by (induction n rule: nat_digits.induct) (subst nat_digits.simps, auto simp: digit_char_props)

lemma nat_digits_nonempty: "nat_digits n \<noteq> []"
  by (subst nat_digits.simps) simp

lemma digits_val_snoc: "digits_val (ds @ [c]) = 10 * digits_val ds + digit_val c"
  by (simp add: digits_val_def)

lemma digits_val_nat_digits: "digits_val (nat_digits n) = n"
proof (induction n rule: nat_digits.induct)
  case (1 n)
  show ?case
  proof (cases "n < 10")
    case True
    then show ?thesis
      by (subst nat_digits.simps) (simp add: digits_val_def digit_char_props)
  next
    case False
    with 1 show ?thesis
      by (subst nat_digits.simps) (simp add: digits_val_snoc digit_char_props)
  qed
qed

lemma hd_nat_digits: "0 < n \<Longrightarrow> hd (nat_digits n) \<noteq> CHR ''0''"
proof (induction n rule: nat_digits.induct)
  case (1 n)
  show ?case
  proof (cases "n < 10")
    case True
    with 1(2) show ?thesis
      by (subst nat_digits.simps) (simp add: digit_char_zero)
  next
    case False
    then have "0 < n div 10" by simp
    with 1(1) False have "hd (nat_digits (n div 10)) \<noteq> CHR ''0''" by simp
    with False show ?thesis
      by (subst nat_digits.simps) (simp add: nat_digits_nonempty)
  qed
qed

lemma nat_digits_no_leading_zero:
  "1 < length (nat_digits n) \<Longrightarrow> hd (nat_digits n) \<noteq> CHR ''0''"
proof -
  assume l: "1 < length (nat_digits n)"
  have "0 < n"
  proof (rule ccontr)
    assume "\<not> 0 < n"
    then have "nat_digits n = [digit_char 0]" by (subst nat_digits.simps) simp
    with l show False by simp
  qed
  then show ?thesis by (rule hd_nat_digits)
qed

lemma frac_digits_digits: "\<forall>c\<in>set (frac_digits d n). is_digit c"
  by (induction d arbitrary: n) (auto simp: digit_char_props)

lemma length_frac_digits: "length (frac_digits d n) = d"
  by (induction d arbitrary: n) auto

lemma digits_val_frac_digits: "digits_val (frac_digits d n) = n mod 10 ^ d"
proof (induction d arbitrary: n)
  case 0
  then show ?case by (simp add: digits_val_def)
next
  case (Suc d)
  have "n mod (10 * 10 ^ d) = 10 * (n div 10 mod 10 ^ d) + n mod 10"
    by (rule mod_mult2_eq)
  with Suc show ?case by (simp add: digits_val_snoc digit_char_props)
qed

lemma digits_span_append:
  assumes "\<forall>c\<in>set ds. is_digit c" and "case r of [] \<Rightarrow> True | c # _ \<Rightarrow> \<not> is_digit c"
  shows "digits_span (ds @ r) = (ds, r)"
  using assms by (cases r) (simp_all add: digits_span_def takeWhile_append2 dropWhile_append2)

lemma digits_span_follow:
  "\<forall>c\<in>set ds. is_digit c \<Longrightarrow> follow r \<Longrightarrow> digits_span (ds @ r) = (ds, r)"
  by (rule digits_span_append) (auto simp: follow_def is_digit_def split: list.splits)

lemma digits_span_dot:
  "\<forall>c\<in>set ds. is_digit c \<Longrightarrow> digits_span (ds @ CHR ''.'' # r) = (ds, CHR ''.'' # r)"
  by (rule digits_span_append) (auto simp: is_digit_def)

lemma is_digit_not_minus: "is_digit c \<Longrightarrow> c \<noteq> CHR ''-''"
  by (auto simp: is_digit_def)

lemma parse_unsigned_int:
  assumes dig: "\<forall>c\<in>set ds. is_digit c" and ne: "ds \<noteq> []"
    and lz: "1 < length ds \<Longrightarrow> hd ds \<noteq> CHR ''0''" and fo: "follow r"
  shows "parse_unsigned (ds @ r) = Some ((digits_val ds, 0), r)"
proof -
  have "\<not> (ds = [] \<or> (1 < length ds \<and> hd ds = CHR ''0''))" using ne lz by blast
  moreover have "case r of [] \<Rightarrow> True | c # _ \<Rightarrow> c \<noteq> CHR ''.''"
    using fo by (auto simp: follow_def split: list.splits)
  ultimately show ?thesis
    by (simp add: parse_unsigned_def digits_span_follow [OF dig fo] split: list.splits)
qed

lemma parse_unsigned_frac:
  assumes dig: "\<forall>c\<in>set ds. is_digit c" and ne: "ds \<noteq> []"
    and lz: "1 < length ds \<Longrightarrow> hd ds \<noteq> CHR ''0''"
    and fdig: "\<forall>c\<in>set fs. is_digit c" and fne: "fs \<noteq> []" and fo: "follow r"
  shows "parse_unsigned (ds @ CHR ''.'' # fs @ r)
           = Some ((digits_val ds * 10 ^ length fs + digits_val fs, length fs), r)"
proof -
  have "\<not> (ds = [] \<or> (1 < length ds \<and> hd ds = CHR ''0''))" using ne lz by blast
  then show ?thesis
    by (simp add: parse_unsigned_def digits_span_dot [OF dig] digits_span_follow [OF fdig fo] fne)
qed

lemma parse_number_minus:
  "parse_number (CHR ''-'' # s) =
     (case parse_unsigned s of None \<Rightarrow> None | Some ((n, d), r') \<Rightarrow> Some (Number (- int n) d, r'))"
  by (simp add: parse_number_def)

lemma parse_number_plus:
  assumes "is_digit (hd s)" and "s \<noteq> []"
  shows "parse_number s =
     (case parse_unsigned s of None \<Rightarrow> None | Some ((n, d), r') \<Rightarrow> Some (Number (int n) d, r'))"
  using assms by (cases s) (auto simp: parse_number_def dest: is_digit_not_minus)

lemma hd_nat_digits_digit: "is_digit (hd (nat_digits n))"
  using nat_digits_digits [of n] nat_digits_nonempty [of n] by (cases "nat_digits n") auto

lemma parse_number_text:
  assumes "follow r"
  shows "parse_number (number_text x @ r) = Some (x, r)"
proof (cases x)
  case (Number m d)
  define i where "i = nat \<bar>m\<bar> div 10 ^ d"
  define f where "f = nat \<bar>m\<bar> mod 10 ^ d"
  define body where "body = nat_digits i @ (if d = 0 then [] else CHR ''.'' # frac_digits d f) @ r"
  have val: "i * 10 ^ d + f = nat \<bar>m\<bar>"
    unfolding i_def f_def by (rule div_mult_mod_eq)
  have pu: "parse_unsigned body = Some ((nat \<bar>m\<bar>, d), r)"
  proof (cases "d = 0")
    case True
    then have "i = nat \<bar>m\<bar>" by (simp add: i_def)
    with True show ?thesis
      using parse_unsigned_int [OF nat_digits_digits nat_digits_nonempty
          nat_digits_no_leading_zero assms]
      by (simp add: body_def digits_val_nat_digits)
  next
    case False
    have ne: "frac_digits d f \<noteq> []"
      using False length_frac_digits [of d f] by auto
    have "f mod 10 ^ d = f" by (simp add: f_def)
    then have fv: "digits_val (frac_digits d f) = f" by (simp add: digits_val_frac_digits)
    from False val show ?thesis
      using parse_unsigned_frac [OF nat_digits_digits nat_digits_nonempty
          nat_digits_no_leading_zero frac_digits_digits ne assms]
      by (simp add: body_def digits_val_nat_digits fv length_frac_digits)
  qed
  have hd: "is_digit (hd body)" and bne: "body \<noteq> []"
    using hd_nat_digits_digit [of i] nat_digits_nonempty [of i] by (simp_all add: body_def)
  show ?thesis
  proof (cases "m < 0")
    case True
    then have "number_text x @ r = CHR ''-'' # body"
      by (simp add: Number body_def i_def f_def)
    with True pu show ?thesis by (simp add: parse_number_minus Number)
  next
    case False
    then have "number_text x @ r = body"
      by (simp add: Number body_def i_def f_def)
    with False pu show ?thesis by (simp add: parse_number_plus [OF hd bne] Number)
  qed
qed

subsection \<open>Strings\<close>

lemma hex_val_hex_char: "k < 16 \<Longrightarrow> hex_val (hex_char k) = Some k"
proof -
  assume "k < 16"
  then have "k = 0 \<or> k = 1 \<or> k = 2 \<or> k = 3 \<or> k = 4 \<or> k = 5 \<or> k = 6 \<or> k = 7
    \<or> k = 8 \<or> k = 9 \<or> k = 10 \<or> k = 11 \<or> k = 12 \<or> k = 13 \<or> k = 14 \<or> k = 15"
    by arith
  then show ?thesis
    by (elim disjE) (simp_all add: hex_char_def hex_val_def is_digit_def digit_val_def)
qed

lemma char_of_hex_split: "char_of (16 * ((of_char c :: nat) div 16) + of_char c mod 16) = c"
  by simp

lemma parse_string_escape_char:
  assumes "parse_string s = Some (str, r)"
  shows "parse_string (escape_char c @ s) = Some (c # str, r)"
proof -
  have "(of_char c :: nat) < 16 * 16"
    using nat_of_char_less_256 [of c] by simp
  then have d: "(of_char c :: nat) div 16 < 16"
    by (rule less_mult_imp_div_less)
  have m: "(of_char c :: nat) mod 16 < 16" by simp
  show ?thesis
    using assms
    by (simp add: escape_char_def unescape_def hex_val_hex_char [OF d] hex_val_hex_char [OF m]
        char_of_hex_split)
qed

lemma parse_string_body:
  "parse_string (concat (map escape_char s) @ dquote # r) = Some (s, r)"
  by (induction s) (simp_all add: parse_string_escape_char)

lemma string_text_append:
  "string_text s @ r = dquote # (concat (map escape_char s) @ dquote # r)"
  by (simp add: string_text_def)

subsection \<open>Values\<close>

lemma skip_ws_simps [simp]:
  "skip_ws [] = []"
  "skip_ws (CHR '' '' # s) = skip_ws s"
  "\<not> is_ws c \<Longrightarrow> skip_ws (c # s) = c # s"
  by (simp_all add: skip_ws_def is_ws_def)

lemma not_ws [simp]:
  "\<not> is_ws (CHR ''['')" "\<not> is_ws (CHR '']'')" "\<not> is_ws (CHR ''{'')" "\<not> is_ws (CHR ''}'')"
  "\<not> is_ws (CHR '','')" "\<not> is_ws (CHR '':'')" "\<not> is_ws dquote"
  by (simp_all add: is_ws_def)

lemma parse_value_ws: "parse_value n (CHR '' '' # s) = parse_value n s"
  by (cases n) simp_all

lemma parse_elems_ws: "parse_elems n (CHR '' '' # s) = parse_elems n s"
  by (cases n) (simp_all add: parse_value_ws)

lemma parse_members_ws: "parse_members n (CHR '' '' # s) = parse_members n s"
  by (cases n) simp_all

lemma follow_simps [simp]:
  "follow []" "follow (CHR '','' # s)" "follow (CHR '']'' # s)" "follow (CHR ''}'' # s)"
  by (simp_all add: follow_def)

lemma skip_ws_follow: "follow r \<Longrightarrow> skip_ws r = r"
  by (cases r) (auto simp: follow_def)

lemma number_text_first: "\<exists>c cs. number_text x = c # cs \<and> (c = CHR ''-'' \<or> is_digit c)"
proof (cases x)
  case (Number m d)
  obtain c cs where "nat_digits (nat \<bar>m\<bar> div 10 ^ d) = c # cs"
    using nat_digits_nonempty by (cases "nat_digits (nat \<bar>m\<bar> div 10 ^ d)") auto
  moreover from this have "is_digit c"
    using nat_digits_digits [of "nat \<bar>m\<bar> div 10 ^ d"] by simp
  ultimately show ?thesis by (simp add: Number)
qed

lemma parse_atom_null: "parse_atom (''null'' @ r) = Some (JNull, r)"
  by (simp add: parse_atom_def strip_prefix_def)

lemma parse_atom_true: "parse_atom (''true'' @ r) = Some (JBool True, r)"
  by (simp add: parse_atom_def strip_prefix_def)

lemma parse_atom_false: "parse_atom (''false'' @ r) = Some (JBool False, r)"
  by (simp add: parse_atom_def strip_prefix_def)

lemma parse_atom_string: "parse_atom (string_text s @ r) = Some (JStr s, r)"
  by (simp add: parse_atom_def string_text_append parse_string_body)

lemma parse_atom_number:
  assumes "follow r"
  shows "parse_atom (number_text x @ r) = Some (JNum x, r)"
proof -
  obtain c cs where t: "number_text x = c # cs" and c: "c = CHR ''-'' \<or> is_digit c"
    using number_text_first by blast
  from c have "c \<noteq> dquote" "c \<noteq> CHR ''n''" "c \<noteq> CHR ''t''" "c \<noteq> CHR ''f''"
    by (auto simp: is_digit_def)
  then have "parse_atom (c # cs @ r) =
      (case parse_number (c # cs @ r) of None \<Rightarrow> None | Some (x, r') \<Rightarrow> Some (JNum x, r'))"
    by (simp add: parse_atom_def strip_prefix_def)
  with parse_number_text [OF assms, of x] show ?thesis by (simp add: t)
qed

lemma json_dumps_first: "\<exists>c cs. json_dumps j = c # cs \<and> opens c"
proof (cases j)
  case (JNum x)
  then show ?thesis
    using number_text_first [of x] by (auto simp: opens_def is_ws_def is_digit_def)
qed (auto simp: opens_def is_ws_def string_text_def)

lemma parse_value_atom:
  assumes "\<not> is_ws c" and "c \<noteq> CHR ''[''" and "c \<noteq> CHR ''{''"
  shows "parse_value (Suc n) (c # s) = parse_atom (c # s)"
  using assms by simp

lemma parse_value_list:
  "parse_value (Suc n) (CHR ''['' # s) =
     (case skip_ws s of
        [] \<Rightarrow> None
      | c' # r' \<Rightarrow>
          if c' = CHR '']'' then Some (JList [], r')
          else (case parse_elems n s of None \<Rightarrow> None | Some (vs, r'') \<Rightarrow> Some (JList vs, r'')))"
  by simp

lemma parse_value_dict:
  "parse_value (Suc n) (CHR ''{'' # s) =
     (case skip_ws s of
        [] \<Rightarrow> None
      | c' # r' \<Rightarrow>
          if c' = CHR ''}'' then Some (JDict [], r')
          else (case parse_members n s of None \<Rightarrow> None | Some (kvs, r'') \<Rightarrow> Some (JDict kvs, r'')))"
  by simp

declare parse_value.simps [simp del] parse_elems.simps [simp del] parse_members.simps [simp del]

lemma parse_elems_join:
  assumes ih: "\<And>v n r. v \<in> set vs \<Longrightarrow> length (json_dumps v) \<le> n \<Longrightarrow> follow r
      \<Longrightarrow> parse_value n (json_dumps v @ r) = Some (v, r)"
    and "vs \<noteq> []" and "length (join '', '' (map json_dumps vs)) < n"
  shows "parse_elems n (join '', '' (map json_dumps vs) @ CHR '']'' # r) = Some (vs, r)"
  using assms
proof (induction vs arbitrary: n)
  case Nil
  then show ?case by simp
next
  case (Cons v ws)
  note IH = Cons.IH and elem = Cons.prems(1) and len = Cons.prems(3)
  from len obtain n' where n: "n = Suc n'" by (cases n) auto
  show ?case
  proof (cases ws)
    case Nil
    with len n have "length (json_dumps v) \<le> n'" by simp
    then have "parse_value n' (json_dumps v @ CHR '']'' # r) = Some (v, CHR '']'' # r)"
      by (intro elem) simp_all
    with Nil n show ?thesis by (simp add: parse_elems.simps)
  next
    case (Cons w ws')
    note ws = this
    define rest where "rest = join '', '' (map json_dumps ws) @ CHR '']'' # r"
    from ws len n have l1: "length (json_dumps v) \<le> n'"
      and l2: "length (join '', '' (map json_dumps ws)) < n'" by simp_all
    from l1 have "parse_value n' (json_dumps v @ CHR '','' # CHR '' '' # rest)
        = Some (v, CHR '','' # CHR '' '' # rest)"
      by (intro elem) simp_all
    moreover have "parse_elems n' rest = Some (ws, r)"
      unfolding rest_def
    proof (rule IH)
      show "ws \<noteq> []" using ws by simp
      show "length (join '', '' (map json_dumps ws)) < n'" by (rule l2)
    next
      fix v' m t
      assume "v' \<in> set ws" and "length (json_dumps v') \<le> m" and "follow t"
      then show "parse_value m (json_dumps v' @ t) = Some (v', t)"
        by (intro elem) simp_all
    qed
    ultimately show ?thesis
      using ws n by (simp add: rest_def parse_elems.simps parse_elems_ws)
  qed
qed

lemma parse_members_step:
  assumes "parse_value n (json_dumps v @ t) = Some (v, t)"
  shows "parse_members (Suc n) (string_text k @ '': '' @ json_dumps v @ t) =
     (case skip_ws t of
        [] \<Rightarrow> None
      | d # r4 \<Rightarrow>
          if d = CHR '','' then
            (case parse_members n r4 of
               None \<Rightarrow> None
             | Some (kvs, r5) \<Rightarrow> Some ((k, v) # kvs, r5))
          else if d = CHR ''}'' then Some ([(k, v)], r4)
          else None)"
  using assms
  by (simp add: parse_members.simps string_text_append parse_string_body parse_value_ws)

lemma parse_members_join:
  assumes ih: "\<And>k v n r. (k, v) \<in> set kvs \<Longrightarrow> length (json_dumps v) \<le> n \<Longrightarrow> follow r
      \<Longrightarrow> parse_value n (json_dumps v @ r) = Some (v, r)"
    and "kvs \<noteq> []" and "length (join '', '' (map member_text kvs)) < n"
  shows "parse_members n (join '', '' (map member_text kvs) @ CHR ''}'' # r) = Some (kvs, r)"
  using assms
proof (induction kvs arbitrary: n)
  case Nil
  then show ?case by simp
next
  case (Cons kv ws)
  note IH = Cons.IH and elem = Cons.prems(1) and len = Cons.prems(3)
  obtain k v where kv: "kv = (k, v)" by (cases kv)
  from len obtain n' where n: "n = Suc n'" by (cases n) auto
  show ?case
  proof (cases ws)
    case Nil
    with len n kv have "length (json_dumps v) \<le> n'" by (simp add: member_text_def)
    then have "parse_value n' (json_dumps v @ CHR ''}'' # r) = Some (v, CHR ''}'' # r)"
      using kv by (intro elem [of k]) simp_all
    from parse_members_step [OF this, of k] Nil n kv show ?thesis
      by (simp add: member_text_def)
  next
    case (Cons w ws')
    note ws = this
    define rest where "rest = join '', '' (map member_text ws) @ CHR ''}'' # r"
    from ws len n kv have l1: "length (json_dumps v) \<le> n'"
      and l2: "length (join '', '' (map member_text ws)) < n'"
      by (simp_all add: member_text_def)
    from l1 have "parse_value n' (json_dumps v @ CHR '','' # CHR '' '' # rest)
        = Some (v, CHR '','' # CHR '' '' # rest)"
      using kv by (intro elem [of k]) simp_all
    note step = parse_members_step [OF this, of k]
    have "parse_members n' rest = Some (ws, r)"
      unfolding rest_def
    proof (rule IH)
      show "ws \<noteq> []" using ws by simp
      show "length (join '', '' (map member_text ws)) < n'" by (rule l2)
    next
      fix k' v' m t
      assume "(k', v') \<in> set ws" and "length (json_dumps v') \<le> m" and "follow t"
      then show "parse_value m (json_dumps v' @ t) = Some (v', t)"
        by (intro elem [of k']) simp_all
    qed
    with step show ?thesis
      using ws n kv by (simp add: rest_def member_text_def parse_members_ws)
  qed
qed

lemma hd_join:
  "xs \<noteq> [] \<Longrightarrow> hd xs \<noteq> [] \<Longrightarrow> \<exists>cs. join sep xs @ t = hd (hd xs) # cs"
proof (cases xs)
  case Nil
  assume "xs \<noteq> []"
  with Nil show ?thesis by simp
next
  case (Cons x ys)
  assume "hd xs \<noteq> []"
  with Cons obtain c cs where "x = c # cs" by (cases x) auto
  with Cons show ?thesis by (cases ys) auto
qed

lemma parse_value_json_dumps:
  "length (json_dumps j) \<le> n \<Longrightarrow> follow r \<Longrightarrow> parse_value n (json_dumps j @ r) = Some (j, r)"
proof (induction j arbitrary: n r)
  case JNull
  then obtain n' where "n = Suc n'" by (cases n) auto
  then show ?case by (simp add: parse_value_atom is_ws_def parse_atom_null [simplified])
next
  case (JBool b)
  then obtain n' where "n = Suc n'" by (cases n; cases b) auto
  then show ?case
    by (cases b)
      (simp_all add: parse_value_atom is_ws_def parse_atom_true [simplified]
        parse_atom_false [simplified])
next
  case (JNum x)
  obtain c cs where t: "number_text x = c # cs" and c: "c = CHR ''-'' \<or> is_digit c"
    using number_text_first by blast
  with JNum obtain n' where n: "n = Suc n'" by (cases n) auto
  from c have "\<not> is_ws c" "c \<noteq> CHR ''[''" "c \<noteq> CHR ''{''"
    by (auto simp: is_digit_def is_ws_def)
  then have "parse_value (Suc n') (c # cs @ r) = parse_atom (c # cs @ r)"
    by (rule parse_value_atom)
  with parse_atom_number [OF JNum(2), of x] n t show ?case by simp
next
  case (JStr s)
  then obtain n' where n: "n = Suc n'" by (cases n) (auto simp: string_text_def)
  have "parse_value (Suc n') (dquote # concat (map escape_char s) @ dquote # r)
      = parse_atom (dquote # concat (map escape_char s) @ dquote # r)"
    by (rule parse_value_atom) simp_all
  with parse_atom_string [of s r] n show ?case by (simp add: string_text_append)
next
  case (JList vs)
  from JList(2) obtain n' where n: "n = Suc n'" by (cases n) auto
  show ?case
  proof (cases "vs = []")
    case True
    with n show ?thesis by (simp add: parse_value_list)
  next
    case False
    define body where "body = join '', '' (map json_dumps vs)"
    from JList(2) n have len: "length body < n'" by (simp add: body_def)
    have pe: "parse_elems n' (body @ CHR '']'' # r) = Some (vs, r)"
      unfolding body_def using False len JList(1) by (intro parse_elems_join) (simp_all add: body_def)
    from False obtain v ws where vs: "vs = v # ws" by (cases vs) auto
    obtain c cs where c: "json_dumps v = c # cs" and o: "opens c"
      using json_dumps_first by blast
    from vs c obtain cs' where b: "body @ CHR '']'' # r = c # cs'"
      using hd_join [of "map json_dumps vs" "'', ''" "CHR '']'' # r"] by (auto simp: body_def)
    from o have "\<not> is_ws c" "c \<noteq> CHR '']''" by (simp_all add: opens_def)
    with pe b n show ?thesis
      by (simp add: parse_value_list body_def [symmetric])
  qed
next
  case (JDict kvs)
  from JDict(2) obtain n' where n: "n = Suc n'" by (cases n) auto
  show ?case
  proof (cases "kvs = []")
    case True
    with n show ?thesis by (simp add: parse_value_dict)
  next
    case False
    define body where "body = join '', '' (map member_text kvs)"
    have jd: "json_dumps (JDict kvs) = CHR ''{'' # body @ ''}''"
      by (simp add: body_def member_text_def)
    from JDict(2) [unfolded jd] n have len: "length body < n'" by simp
    have ih: "\<And>k v n r. (k, v) \<in> set kvs \<Longrightarrow> length (json_dumps v) \<le> n \<Longrightarrow> follow r
      \<Longrightarrow> parse_value n (json_dumps v @ r) = Some (v, r)"
      using JDict(1) by force
    have pm: "parse_members n' (body @ CHR ''}'' # r) = Some (kvs, r)"
      unfolding body_def using False len ih by (intro parse_members_join) (simp_all add: body_def)
    from False obtain k v ws where kvs: "kvs = (k, v) # ws" by (cases kvs) auto
    then obtain cs' where b: "body @ CHR ''}'' # r = dquote # cs'"
      using hd_join [of "map member_text kvs" "'', ''" "CHR ''}'' # r"]
      by (auto simp: body_def member_text_def string_text_def)
    have "parse_value n (json_dumps (JDict kvs) @ r)
        = parse_value (Suc n') (CHR ''{'' # (body @ CHR ''}'' # r))"
      unfolding jd n by simp
    also have "\<dots> = Some (JDict kvs, r)"
      unfolding parse_value_dict using pm b by simp
    finally show ?thesis .
  qed
qed

lemma json_loads_json_dumps: "json_loads (json_dumps j) = Some j"
  using parse_value_json_dumps [of j "Suc (length (json_dumps j))" "[]"]
  by (simp add: json_loads_def)

section \<open>Reading and writing the configuration\<close>

lemma string_leaves_dict:
  "string_leaves (func_to_str (CDict kvs))
     = concat (map (\<lambda>(k, v). string_leaves (func_to_str v)) kvs)"
  by (simp add: comp_def case_prod_unfold)

lemma func_refs_emitted:
  "p \<in> set (func_refs a) \<Longrightarrow> ''func:'' @ p \<in> set (string_leaves (func_to_str a))"
proof (induction a)
  case (CDict kvs)
  from CDict(2) obtain k v where kv: "(k, v) \<in> set kvs" and p: "p \<in> set (func_refs v)"
    by auto
  from kv p have "''func:'' @ p \<in> set (string_leaves (func_to_str v))"
    using CDict(1) [of "(k, v)" v] by simp
  with kv show ?case
    unfolding string_leaves_dict by force
qed (auto simp del: append.simps)

lemma func_to_str_held_as_strings: "func_to_str (held_as_strings j) = j"
  by (induction j) (auto intro!: map_idI)

text \<open>
  Claim C6: reading back the file that the writer wrote for a description \<open>a\<close> returns
  \<open>a\<close> with its matcher and rule identifiers in the string form \<^verbatim>\<open>func:<dotted.path>\<close>:
  every function reference of \<open>a\<close> is in the result as the string \<^verbatim>\<open>func:\<close> followed by
  its dotted path, and a description that held strings only comes back as it was. The
  text is written by \<open>json_dumps\<close> and read by \<open>json_loads\<close>, and the description names
  registered matchers and rules only.
\<close>

theorem read_write_roundtrip:
  assumes "registered (func_to_str a)"
  shows "read_linkage_config json_loads registered f (write_linkage_config json_dumps a f fs)
           = Inr (func_to_str a) \<and>
         (\<forall>p\<in>set (func_refs a). ''func:'' @ p \<in> set (string_leaves (func_to_str a))) \<and>
         (a = held_as_strings j \<longrightarrow>
            read_linkage_config json_loads registered f (write_linkage_config json_dumps a f fs)
              = Inr j)"
  using assms
  by (auto simp: read_linkage_config_def write_linkage_config_def json_loads_json_dumps
      func_to_str_held_as_strings func_refs_emitted simp del: append.simps)

text \<open>The text written for the description of \<^verbatim>\<open>test_algo_write\<close>.\<close>

lemma json_dumps_loaded_algo: "json_dumps loaded_algo = loaded_text"
  by code_simp

lemma sample_func_to_str: "func_to_str sample_algo = loaded_algo"
  by (simp add: sample_algo_def loaded_algo_def)

theorem read_write_roundtrip_witness:
  "every_identifier (func_to_str sample_algo) \<and>
   read_linkage_config json_loads every_identifier ''algo_test_write.json''
     (write_linkage_config json_dumps sample_algo ''algo_test_write.json'' no_files)
     = Inr loaded_algo \<and>
   ''func:recordlinker.linkage.matchers.eval_log_odds_cutoff'' \<in> set (string_leaves loaded_algo)"
proof -
  have r: "every_identifier (func_to_str sample_algo)" by (simp add: every_identifier_def)
  have p: "''recordlinker.linkage.matchers.eval_log_odds_cutoff'' \<in> set (func_refs sample_algo)"
    by (simp add: sample_algo_def)
  note rt = read_write_roundtrip
    [where a = sample_algo and registered = every_identifier and f = "''algo_test_write.json''"
       and fs = no_files, OF r]
  from rt have 1: "read_linkage_config json_loads every_identifier ''algo_test_write.json''
     (write_linkage_config json_dumps sample_algo ''algo_test_write.json'' no_files)
     = Inr (func_to_str sample_algo)" by blast
  from rt p have 2: "''func:'' @ ''recordlinker.linkage.matchers.eval_log_odds_cutoff''
     \<in> set (string_leaves (func_to_str sample_algo))" by blast
  from 1 2 r show ?thesis by (simp add: sample_func_to_str)
qed

text \<open>
  Claim C7: \<^verbatim>\<open>read_linkage_config\<close> fails with \<^verbatim>\<open>FileNotFoundError\<close> when no file exists at
  the path, and with \<^verbatim>\<open>JSONDecodeError\<close> when the file exists and its text is not JSON; an
  error is not a returned value.
\<close>

theorem read_linkage_config_errors:
  "(fs config_file = None \<longrightarrow>
      read_linkage_config loads registered config_file fs = Inl FileNotFoundError) \<and>
   (fs config_file = Some content \<and> loads content = None \<longrightarrow>
      read_linkage_config loads registered config_file fs = Inl JSONDecodeError)"
  by (simp add: read_linkage_config_def)

lemma garbage_not_json:
  "json_loads ''this is a random string that is not in json format'' = None"
  by code_simp

theorem read_linkage_config_errors_witness:
  "no_files ''invalid.json'' = None \<and>
   read_linkage_config json_loads every_identifier ''invalid.json'' no_files
     = Inl FileNotFoundError \<and>
   garbage_file ''not_valid_json_test.json''
     = Some ''this is a random string that is not in json format'' \<and>
   json_loads ''this is a random string that is not in json format'' = None \<and>
   read_linkage_config json_loads every_identifier ''not_valid_json_test.json'' garbage_file
     = Inl JSONDecodeError"
proof -
  have a: "no_files ''invalid.json'' = None" by (simp add: no_files_def)
  have b: "garbage_file ''not_valid_json_test.json''
     = Some ''this is a random string that is not in json format''" by (simp add: garbage_file_def)
  note c = garbage_not_json
  from read_linkage_config_errors
    [where fs = no_files and config_file = "''invalid.json''" and loads = json_loads
       and registered = every_identifier] a
  have "read_linkage_config json_loads every_identifier ''invalid.json'' no_files
     = Inl FileNotFoundError"
    by blast
  moreover from read_linkage_config_errors
    [where fs = garbage_file and config_file = "''not_valid_json_test.json''"
       and content = "''this is a random string that is not in json format''"
       and loads = json_loads and registered = every_identifier] b c
  have "read_linkage_config json_loads every_identifier ''not_valid_json_test.json'' garbage_file
     = Inl JSONDecodeError" by blast
  ultimately show ?thesis using a b c by blast
qed

section \<open>The hash of a linking identifier\<close>

text \<open>The digest of the message \<^verbatim>\<open>abc\<close> is the one FIPS 180-4 gives for it.\<close>

lemma sha256_abc:
  "hexdigest (sha256 (utf8 ''abc''))
     = ''ba7816bf8f01cfea414140de5dae2223b00361a396177a9cb410ff61f20015ad''"
  by code_simp

text \<open>The second digest of \<^verbatim>\<open>test_generate_hash\<close> is that of the identifier followed by the salt.\<close>

lemma generate_hash_str_tali_zora:
  "generate_hash_str tali_zora legit_salt
     = ''102818c623290c24069beb721c6eb465d281b3b67ecfb6aef924d14affa117b9''"
  by code_simp

text \<open>
  Claim C8: \<^verbatim>\<open>generate_hash_str(p, s)\<close> is the lowercase hexadecimal SHA-256 digest of the
  salt, a newline and the payload, and for the identifier and the salt of
  \<^verbatim>\<open>test_generate_hash\<close> it is \<^verbatim>\<open>b124335071679e95...\<close>. The digest of the salt, a newline
  and that identifier is another one.
\<close>

theorem hash_salt_newline_payload_counterexample:
  "hash_salt_newline_payload john_shepard legit_salt
     = ''27e5df427b08acaecf7bc59d853075727a811edea006546162d03e3f3272a08b'' \<and>
   hash_salt_newline_payload john_shepard legit_salt
     \<noteq> ''b124335071679e95341b8133669f6ab475f211f3e19d3cf69e7b6f13b0df45d6''"
proof -
  have "hash_salt_newline_payload john_shepard legit_salt
     = ''27e5df427b08acaecf7bc59d853075727a811edea006546162d03e3f3272a08b''"
    by code_simp
  then show ?thesis by simp
qed

text \<open>
  Claim C8, amended: \<^verbatim>\<open>generate_hash_str(p, s)\<close> is the lowercase hexadecimal SHA-256 digest
  of the UTF-8 bytes of the payload followed by the salt, with nothing between them, and
  for the identifier and the salt of \<^verbatim>\<open>test_generate_hash\<close> it is
  \<^verbatim>\<open>b124335071679e95341b8133669f6ab475f211f3e19d3cf69e7b6f13b0df45d6\<close>.
\<close>

theorem generate_hash_str_digest:
  "generate_hash_str p s = hexdigest (sha256 (utf8 (p @ s))) \<and>
   generate_hash_str john_shepard legit_salt
     = ''b124335071679e95341b8133669f6ab475f211f3e19d3cf69e7b6f13b0df45d6''"
proof
  show "generate_hash_str p s = hexdigest (sha256 (utf8 (p @ s)))"
    by (simp add: generate_hash_str_def)
  show "generate_hash_str john_shepard legit_salt
     = ''b124335071679e95341b8133669f6ab475f211f3e19d3cf69e7b6f13b0df45d6''"
    by code_simp
qed

end
